theory Spec2Isabelle
  imports Complex_Main
begin

section \<open>Errors and abstract bases\<close>

text \<open>
  The exceptions the three components can raise. A Python \<open>ValueError\<close> carries the
  tuple of its arguments (the plot's configuration error is raised with two strings).
\<close>

datatype error =
    ValueError "string list"
  | IndexError
  | AttributeError
  | NotFittedError

text \<open>
  A \<open>Basis\<close> object as the vector-valued basis sees it: the attributes it reads
  (\<open>dim_domain\<close>, \<open>dim_codomain\<close>, \<open>domain_range\<close>, \<open>n_basis\<close>) and the methods
  it calls on its children (\<open>evaluate\<close>, \<open>gram_matrix\<close>,
  \<open>_derivative_basis_and_coefs\<close>). Arrays are nested lists, outermost axis first;
  the array entries are of an arbitrary type with a zero, since the code only copies
  them. A child's derivative may raise, and returns a new basis with new coefficients.
\<close>

datatype 'a basis = Basis
  (dim_domain: nat)
  (dim_codomain: nat)
  (domain_range: "(real \<times> real) list")
  (n_basis: nat)
  (evaluate: "real list \<Rightarrow> 'a list list list")
  (gram_matrix: "'a list list")
  (derivative_basis_and_coefs: "'a list list \<Rightarrow> int \<Rightarrow> error + ('a basis \<times> 'a list list)")

section \<open>VectorValued: construction\<close>

text \<open>
  A \<open>VectorValued\<close> object: the two attributes the base class stores and the tuple
  of children.
\<close>

record 'a vector_valued =
  vv_domain_range :: "(real \<times> real) list"
  vv_n_basis :: nat
  basis_list :: "'a basis list"

text \<open>
  Modelled from the spec: \<open>_same_domain\<close> (in \<open>skfda/_utils\<close>, not among the
  sources) holds when the two objects have identical domain ranges.
\<close>

definition same_domain :: "'a basis \<Rightarrow> 'a basis \<Rightarrow> bool" where
  "same_domain b b0 = (domain_range b = domain_range b0)"

text \<open>
  Modelled from the spec: the constructor of the base class \<open>Basis\<close> (not among the
  sources) stores the domain range and the number of basis functions it is given.
\<close>

definition Basis_init ::
  "'a basis list \<Rightarrow> (real \<times> real) list \<Rightarrow> nat \<Rightarrow> 'a vector_valued" where
  "Basis_init bl dr n = \<lparr>vv_domain_range = dr, vv_n_basis = n, basis_list = bl\<rparr>"

text \<open>
  The generator of the second check: \<open>basis_list[0]\<close> is read once per element, so
  it is never read when the tuple is empty.
\<close>

fun domain_mismatch :: "'a basis list \<Rightarrow> bool" where
  "domain_mismatch [] = False"
| "domain_mismatch (b0 # bs) =
     list_ex (\<lambda>b. dim_domain b \<noteq> dim_domain b0 \<or> \<not> same_domain b b0) (b0 # bs)"

definition scalar_msg :: "string list" where
  "scalar_msg = [''The basis functions must be scalar valued'']"

definition domain_msg :: "string list" where
  "domain_msg = [''The basis must all have the same domain dimension and range'']"

text \<open>
  \<open>VectorValued.__init__\<close>: the two checks in the source's order, then
  \<open>basis_list[0].domain_range\<close>, which raises \<open>IndexError\<close> on the empty tuple.
\<close>

definition VectorValued_init :: "'a basis list \<Rightarrow> error + 'a vector_valued" where
  "VectorValued_init bl =
     (if \<not> list_all (\<lambda>b. dim_codomain b = 1) bl then Inl (ValueError scalar_msg)
      else if domain_mismatch bl then Inl (ValueError domain_msg)
      else (case bl of
              [] \<Rightarrow> Inl IndexError
            | b0 # _ \<Rightarrow> Inr (Basis_init bl (domain_range b0) (sum_list (map n_basis bl)))))"

text \<open>The properties \<open>dim_domain\<close> and \<open>dim_codomain\<close> of a vector-valued basis.\<close>

definition vv_dim_domain :: "'a vector_valued \<Rightarrow> error + nat" where
  "vv_dim_domain self =
     (case basis_list self of [] \<Rightarrow> Inl IndexError | b0 # _ \<Rightarrow> Inr (dim_domain b0))"

definition vv_dim_codomain :: "'a vector_valued \<Rightarrow> nat" where
  "vv_dim_codomain self = length (basis_list self)"

section \<open>Array operations of numpy and scipy\<close>

text \<open>
  Arrays are nested lists and are assumed rectangular; an axis below an empty axis
  has no recorded length. Each operation follows the library's documented behaviour
  on the arrays the code passes to it, with the library's errors as results.
\<close>

definition np_zeros3 :: "nat \<Rightarrow> nat \<Rightarrow> nat \<Rightarrow> ('a::zero) list list list" where
  "np_zeros3 n m k = replicate n (replicate m (replicate k 0))"

text \<open>The first error of a list of results, or all the values.\<close>

fun collect :: "(error + 'b) list \<Rightarrow> error + 'b list" where
  "collect [] = Inr []"
| "collect (Inl e # rs) = Inl e"
| "collect (Inr x # rs) = (case collect rs of Inl e \<Rightarrow> Inl e | Inr xs \<Rightarrow> Inr (x # xs))"

text \<open>\<open>ev[..., 0]\<close> on a 3-D array: the last axis must not be empty.\<close>

definition last_axis_0 :: "'a list list list \<Rightarrow> error + 'a list list" where
  "last_axis_0 ev =
     (if list_ex (list_ex List.null) ev then Inl IndexError
      else Inr (map (map (\<lambda>cell. cell ! 0)) ev))"

definition broadcast_msg :: "string list" where
  "broadcast_msg = [''could not broadcast input array'']"

text \<open>
  Broadcasting one axis of the assigned value to the length of the target axis: equal
  lengths are kept, a single entry is repeated, anything else is an error.
\<close>

definition broadcast_to :: "nat \<Rightarrow> 'b list \<Rightarrow> error + 'b list" where
  "broadcast_to n xs =
     (if length xs = n then Inr xs
      else if length xs = 1 then Inr (replicate n (xs ! 0))
      else Inl (ValueError broadcast_msg))"

text \<open>One row of \<open>matrix[a:b, :, i] = vals\<close>: slot \<open>i\<close> of every point of the row.\<close>

definition set_row :: "nat \<Rightarrow> 'a list list \<Rightarrow> 'a list \<Rightarrow> error + 'a list list" where
  "set_row i row vs =
     (case broadcast_to (length row) vs of
        Inl e \<Rightarrow> Inl e
      | Inr ws \<Rightarrow> Inr (map2 (\<lambda>cell w. cell[i := w]) row ws))"

text \<open>
  \<open>matrix[start:start + len(vals), :, i] = vals\<close>: the slice is clipped to the rows
  of the matrix, the index \<open>i\<close> must exist on the last axis, and \<open>vals\<close> is broadcast
  to the rows and points of the slice.
\<close>

definition set_band ::
  "'a list list list \<Rightarrow> nat \<Rightarrow> nat \<Rightarrow> 'a list list \<Rightarrow> error + 'a list list list" where
  "set_band matrix start i vals =
     (let lo = min start (length matrix);
          hi = min (start + length vals) (length matrix);
          band = take (hi - lo) (drop lo matrix)
      in if list_ex (list_ex (\<lambda>cell. length cell \<le> i)) band then Inl IndexError
         else (case broadcast_to (hi - lo) vals of
                 Inl e \<Rightarrow> Inl e
               | Inr rows \<Rightarrow>
                   (case collect (map2 (set_row i) band rows) of
                      Inl e \<Rightarrow> Inl e
                    | Inr band' \<Rightarrow> Inr (take lo matrix @ band' @ drop hi matrix))))"








text \<open>The number of columns of a 2-D array.\<close>

definition ncols :: "'a list list \<Rightarrow> nat" where
  "ncols A = (case A of [] \<Rightarrow> 0 | row # _ \<Rightarrow> length row)"

text \<open>
  \<open>scipy.linalg.block_diag\<close> of 2-D arrays: the arrays on the diagonal in the order
  given, zeros everywhere else; with no array it is the array of shape \<open>(1, 0)\<close>.
\<close>

fun block_diag_rows :: "('a::zero) list list list \<Rightarrow> 'a list list" where
  "block_diag_rows [] = []"
| "block_diag_rows (A # As) =
     map (\<lambda>row. row @ replicate (sum_list (map ncols As)) 0) A
     @ map (\<lambda>row. replicate (ncols A) 0 @ row) (block_diag_rows As)"

definition block_diag :: "('a::zero) list list list \<Rightarrow> 'a list list" where
  "block_diag arrs = (if arrs = [] then [[]] else block_diag_rows arrs)"

section \<open>VectorValued: evaluation, derivative, Gram matrix\<close>

text \<open>
  The loop of \<open>_evaluate\<close>: \<open>n_basis_eval\<close> is the first row of the next band and
  \<open>i\<close> the index \<open>enumerate\<close> gives to the child.
\<close>

fun evaluate_loop ::
  "'a list list list \<Rightarrow> nat \<Rightarrow> nat \<Rightarrow> 'a list list list list \<Rightarrow> error + 'a list list list" where
  "evaluate_loop matrix n_basis_eval i [] = Inr matrix"
| "evaluate_loop matrix n_basis_eval i (ev # evs) =
     (case last_axis_0 ev of
        Inl e \<Rightarrow> Inl e
      | Inr vals \<Rightarrow>
          (case set_band matrix n_basis_eval i vals of
             Inl e \<Rightarrow> Inl e
           | Inr matrix' \<Rightarrow> evaluate_loop matrix' (n_basis_eval + length ev) (Suc i) evs))"

definition vv_evaluate ::
  "('a::zero) vector_valued \<Rightarrow> real list \<Rightarrow> error + 'a list list list" where
  "vv_evaluate self eval_points =
     (let matrix = np_zeros3 (vv_n_basis self) (length eval_points) (vv_dim_codomain self);
          basis_evaluations = map (\<lambda>b. evaluate b eval_points) (basis_list self)
      in evaluate_loop matrix 0 0 basis_evaluations)"



definition vv_gram_matrix :: "('a::zero) vector_valued \<Rightarrow> 'a list list" where
  "vv_gram_matrix self = block_diag (map gram_matrix (basis_list self))"

section \<open>VectorValued: coordinate selection\<close>









text \<open>
  The basis of a representation is a plain basis or a vector-valued one. A
  representation has a basis, a coefficient matrix (samples by basis functions),
  coordinate names, and other attributes that the selection does not read.
\<close>

datatype 'a any_basis = Scalar "'a basis" | Vector "'a vector_valued"

record ('a, 'o) fdatabasis =
  basis :: "'a any_basis"
  coefficients :: "'a list list"
  coordinate_names :: "string option list"
  other_attributes :: 'o




section \<open>ParametricPlot\<close>

















section \<open>DDGTransformer\<close>

text \<open>
  A fitted distribution offers \<open>predict\<close>. The transformer has its list of depth
  methods and, once fitted, the attributes \<open>classes_\<close> and \<open>distributions_\<close>
  (written \<open>fitted_classes\<close> and \<open>fitted_distributions\<close> here, since a name
  cannot end with an underscore).
\<close>

datatype ('x, 'a) distribution = Distribution (predict: "'x \<Rightarrow> 'a list")

record ('m, 'c, 'x, 'a) ddg_transformer =
  depth_methods :: "'m list"
  fitted_classes :: "'c list option"
  fitted_distributions :: "('x, 'a) distribution list option"

definition DDGTransformer_init ::
  "'m \<Rightarrow> 'm list option \<Rightarrow> ('m, 'c, 'x, 'a) ddg_transformer" where
  "DDGTransformer_init depth_method methods =
     \<lparr>depth_methods = (case methods of None \<Rightarrow> [depth_method] | Some ms \<Rightarrow> ms),
      fitted_classes = None, fitted_distributions = None\<rparr>"

text \<open>
  \<open>fit\<close>: the helper \<open>_classifier_fit_distributions\<close> (not among the sources) is a
  parameter; when it raises, nothing has been assigned.
\<close>

definition fit ::
  "('x \<Rightarrow> 'y \<Rightarrow> 'm list \<Rightarrow> error + ('c list \<times> ('x, 'a) distribution list))
     \<Rightarrow> ('m, 'c, 'x, 'a) ddg_transformer \<Rightarrow> 'x \<Rightarrow> 'y
     \<Rightarrow> error + ('m, 'c, 'x, 'a) ddg_transformer" where
  "fit classifier_fit_distributions self X y =
     (case classifier_fit_distributions X y (depth_methods self) of
        Inl e \<Rightarrow> Inl e
      | Inr (cs, ds) \<Rightarrow> Inr (self\<lparr>fitted_classes := Some cs, fitted_distributions := Some ds\<rparr>))"

text \<open>
  \<open>check_is_fitted\<close> of scikit-learn: the estimator is fitted when it has an
  attribute whose name ends with an underscore.
\<close>

definition check_is_fitted :: "('m, 'c, 'x, 'a) ddg_transformer \<Rightarrow> bool" where
  "check_is_fitted self = (fitted_classes self \<noteq> None \<or> fitted_distributions self \<noteq> None)"

definition inhomogeneous_msg :: "string list" where
  "inhomogeneous_msg = [''setting an array element with a sequence'']"

text \<open>
  \<open>np.transpose\<close> of a list of vectors: the vectors become the columns. Vectors of
  different lengths do not form an array; an empty list is the empty 1-D array.
\<close>

definition np_transpose :: "'a list list \<Rightarrow> error + 'a list list" where
  "np_transpose vs =
     (case vs of
        [] \<Rightarrow> Inr []
      | v # rest \<Rightarrow>
          if list_all (\<lambda>w. length w = length v) rest
          then Inr (map (\<lambda>s. map (\<lambda>w. w ! s) vs) [0..<length v])
          else Inl (ValueError inhomogeneous_msg))"

definition transform ::
  "('m, 'c, 'x, 'a) ddg_transformer \<Rightarrow> 'x \<Rightarrow> error + 'a list list" where
  "transform self X =
     (if \<not> check_is_fitted self then Inl NotFittedError
      else (case fitted_distributions self of
              None \<Rightarrow> Inl AttributeError
            | Some ds \<Rightarrow> np_transpose (map (\<lambda>distribution. predict distribution X) ds)))"

section \<open>Auxiliary notions and example objects\<close>

text \<open>
  The rows a child's evaluation contributes to a matrix with \<open>k\<close> coordinates when
  it is the child of index \<open>i\<close>: every value sits in slot \<open>i\<close> of a zero cell.
\<close>

definition band_rows :: "nat \<Rightarrow> nat \<Rightarrow> ('a::zero) list list list \<Rightarrow> 'a list list list" where
  "band_rows k i ev = map (map (\<lambda>cell. (replicate k 0)[i := cell ! 0])) ev"

text \<open>
  Children for the examples: the monomials \<open>1, t, ..., t^(n-1)\<close> over \<open>[0, 5]\<close>, as
  in the docstring of the class. The derivative method of these objects is given for
  the first order only.
\<close>

primrec monomial :: "nat \<Rightarrow> real basis" where
  "monomial 0 =
     Basis 1 1 [(0, 5)] 0 (\<lambda>P. []) [] (\<lambda>c order. Inl (ValueError [''empty basis'']))"
| "monomial (Suc n) =
     Basis 1 1 [(0, 5)] (Suc n)
       (\<lambda>P. map (\<lambda>j. map (\<lambda>t. [t ^ j]) P) [0..<Suc n])
       (map (\<lambda>i. map (\<lambda>j. 5 ^ (i + j + 1) / real (i + j + 1)) [0..<Suc n]) [0..<Suc n])
       (\<lambda>c order.
          if order = 1
          then Inr (monomial n, map (\<lambda>row. map (\<lambda>j. real (Suc j) * row ! Suc j) [0..<n]) c)
          else Inl (ValueError [''only the first derivative'']))"

definition basis_x :: "real basis" where
  "basis_x = monomial (Suc (Suc (Suc 0)))"

definition basis_y :: "real basis" where
  "basis_y = monomial (Suc (Suc 0))"

definition docstring_basis :: "real vector_valued" where
  "docstring_basis = \<lparr>vv_domain_range = [(0, 5)], vv_n_basis = 5, basis_list = [basis_x, basis_y]\<rparr>"

text \<open>A child that is not scalar valued, and a scalar child over another domain.\<close>

definition plane_child :: "real basis" where
  "plane_child =
     Basis 1 2 [(0, 5)] 1 (\<lambda>P. [map (\<lambda>t. [1, 1]) P]) [[10]]
       (\<lambda>c order. Inl (ValueError [''no derivative'']))"

definition unit_child :: "real basis" where
  "unit_child =
     Basis 1 1 [(0, 1)] 1 (\<lambda>P. [map (\<lambda>t. [1]) P]) [[1]]
       (\<lambda>c order. Inl (ValueError [''no derivative'']))"

text \<open>A 2-D array all of whose rows have the length of the first.\<close>

definition rectangular :: "'a list list \<Rightarrow> bool" where
  "rectangular A = list_all (\<lambda>row. length row = ncols A) A"











text \<open>
  Example objects for the transformer: a sample is a list of values, a depth method
  scores a sample, and the stand-in for the fitting helper returns the sorted labels
  and one distribution per depth method, whose \<open>predict\<close> scores every sample with
  the method.
\<close>

definition example_fit ::
  "real list list \<Rightarrow> nat list \<Rightarrow> (real list \<Rightarrow> real) list
     \<Rightarrow> error + (nat list \<times> (real list list, real) distribution list)" where
  "example_fit X y methods = Inr (sort (remdups y), map (\<lambda>m. Distribution (map m)) methods)"

definition example_X :: "real list list" where
  "example_X = [[1, 2, 3], [4, 5, 6]]"

section \<open>Construction of a vector-valued basis\<close>

text \<open>
  C9: for the empty child list the constructor fails; both checks pass on the empty
  tuple, and reading the first child for the domain range raises the indexing error,
  which is not the configuration error of the two documented violations.
\<close>

theorem VectorValued_init_empty:
  "VectorValued_init ([] :: 'a basis list) = Inl IndexError
   \<and> list_all (\<lambda>b. dim_codomain b = 1) ([] :: 'a basis list)
   \<and> \<not> domain_mismatch ([] :: 'a basis list)
   \<and> VectorValued_init ([] :: 'a basis list) \<noteq> Inl (ValueError scalar_msg)
   \<and> VectorValued_init ([] :: 'a basis list) \<noteq> Inl (ValueError domain_msg)"
  by (simp add: VectorValued_init_def)


lemma example_attributes:
  "dim_domain basis_x = 1" "dim_codomain basis_x = 1" "domain_range basis_x = [(0, 5)]"
  "n_basis basis_x = 3"
  "dim_domain basis_y = 1" "dim_codomain basis_y = 1" "domain_range basis_y = [(0, 5)]"
  "n_basis basis_y = 2"
  "dim_domain plane_child = 1" "dim_codomain plane_child = 2"
  "domain_range plane_child = [(0, 5)]" "n_basis plane_child = 1"
  "dim_domain unit_child = 1" "dim_codomain unit_child = 1"
  "domain_range unit_child = [(0, 1)]" "n_basis unit_child = 1"
  by (simp_all add: basis_x_def basis_y_def plane_child_def unit_child_def)

lemma docstring_basis_init: "VectorValued_init [basis_x, basis_y] = Inr docstring_basis"
  by (simp add: VectorValued_init_def Basis_init_def docstring_basis_def basis_x_def basis_y_def
      same_domain_def)

lemma domain_mismatch_iff:
  "domain_mismatch bl \<longleftrightarrow>
     (\<exists>b\<in>set bl. \<exists>b'\<in>set bl. dim_domain b \<noteq> dim_domain b' \<or> domain_range b \<noteq> domain_range b')"
proof (cases bl)
  case Nil
  then show ?thesis by simp
next
  case (Cons b0 bs)
  show ?thesis
  proof
    assume "domain_mismatch bl"
    then obtain b where "b \<in> set bl" "dim_domain b \<noteq> dim_domain b0 \<or> domain_range b \<noteq> domain_range b0"
      using Cons by (auto simp: list_ex_iff same_domain_def)
    moreover have "b0 \<in> set bl" using Cons by simp
    ultimately show "\<exists>b\<in>set bl. \<exists>b'\<in>set bl. dim_domain b \<noteq> dim_domain b' \<or> domain_range b \<noteq> domain_range b'"
      by blast
  next
    assume "\<exists>b\<in>set bl. \<exists>b'\<in>set bl. dim_domain b \<noteq> dim_domain b' \<or> domain_range b \<noteq> domain_range b'"
    then obtain b b' where bb: "b \<in> set bl" "b' \<in> set bl"
      "dim_domain b \<noteq> dim_domain b' \<or> domain_range b \<noteq> domain_range b'" by blast
    then have "(dim_domain b \<noteq> dim_domain b0 \<or> domain_range b \<noteq> domain_range b0)
       \<or> (dim_domain b' \<noteq> dim_domain b0 \<or> domain_range b' \<noteq> domain_range b0)"
      by metis
    then show "domain_mismatch bl"
      using Cons bb(1,2) unfolding Cons domain_mismatch.simps list_ex_iff same_domain_def by blast
  qed
qed

text \<open>
  C7: constructing a vector-valued basis checks that every child has codomain
  dimension 1 and that all children share the domain dimension and the domain range.
  A violation of the first condition makes the construction itself return the
  configuration error of the scalar check, a violation of the second alone that of the
  domain check; and a construction that succeeds has children without any violation,
  so no violation is left for a later operation.
\<close>

theorem VectorValued_init_validates:
  "((\<exists>b\<in>set bl. dim_codomain b \<noteq> 1) \<longrightarrow> VectorValued_init bl = Inl (ValueError scalar_msg))
   \<and> ((\<forall>b\<in>set bl. dim_codomain b = 1)
        \<and> (\<exists>b\<in>set bl. \<exists>b'\<in>set bl. dim_domain b \<noteq> dim_domain b' \<or> domain_range b \<noteq> domain_range b')
        \<longrightarrow> VectorValued_init bl = Inl (ValueError domain_msg))
   \<and> ((\<exists>self. VectorValued_init bl = Inr self) \<longrightarrow>
        (\<forall>b\<in>set bl. dim_codomain b = 1)
        \<and> (\<forall>b\<in>set bl. \<forall>b'\<in>set bl. dim_domain b = dim_domain b' \<and> domain_range b = domain_range b'))"
proof -
  have A: "(\<exists>b\<in>set bl. dim_codomain b \<noteq> 1) \<longrightarrow> VectorValued_init bl = Inl (ValueError scalar_msg)"
    by (simp add: VectorValued_init_def list_all_iff)
  have B: "(\<forall>b\<in>set bl. dim_codomain b = 1)
        \<and> (\<exists>b\<in>set bl. \<exists>b'\<in>set bl. dim_domain b \<noteq> dim_domain b' \<or> domain_range b \<noteq> domain_range b')
        \<longrightarrow> VectorValued_init bl = Inl (ValueError domain_msg)"
    using domain_mismatch_iff[of bl] by (simp add: VectorValued_init_def list_all_iff)
  have C: "(\<exists>self. VectorValued_init bl = Inr self) \<longrightarrow>
        (\<forall>b\<in>set bl. dim_codomain b = 1)
        \<and> (\<forall>b\<in>set bl. \<forall>b'\<in>set bl. dim_domain b = dim_domain b' \<and> domain_range b = domain_range b')"
  proof
    assume "\<exists>self. VectorValued_init bl = Inr self"
    then have 1: "list_all (\<lambda>b. dim_codomain b = 1) bl" and 2: "\<not> domain_mismatch bl"
      by (auto simp: VectorValued_init_def split: if_splits)
    from 1 have "\<forall>b\<in>set bl. dim_codomain b = 1" by (simp add: list_all_iff)
    moreover from 2 have "\<forall>b\<in>set bl. \<forall>b'\<in>set bl. dim_domain b = dim_domain b' \<and> domain_range b = domain_range b'"
      unfolding domain_mismatch_iff by blast
    ultimately show "(\<forall>b\<in>set bl. dim_codomain b = 1)
        \<and> (\<forall>b\<in>set bl. \<forall>b'\<in>set bl. dim_domain b = dim_domain b' \<and> domain_range b = domain_range b')" by blast
  qed
  from A B C show ?thesis by blast
qed

theorem VectorValued_init_validates_witness:
  "VectorValued_init [basis_x, plane_child] = Inl (ValueError scalar_msg)
   \<and> VectorValued_init [basis_x, unit_child] = Inl (ValueError domain_msg)
   \<and> dim_codomain basis_x = 1 \<and> dim_codomain basis_y = 1
   \<and> domain_range basis_x = domain_range basis_y"
proof -
  have 1: "\<exists>b\<in>set [basis_x, plane_child]. dim_codomain b \<noteq> 1"
    by (simp add: example_attributes)
  have 2: "(\<forall>b\<in>set [basis_x, unit_child]. dim_codomain b = 1)
        \<and> (\<exists>b\<in>set [basis_x, unit_child]. \<exists>b'\<in>set [basis_x, unit_child].
              dim_domain b \<noteq> dim_domain b' \<or> domain_range b \<noteq> domain_range b')"
    by (auto simp: example_attributes)
  have 3: "\<exists>self. VectorValued_init [basis_x, basis_y] = Inr self"
    using docstring_basis_init by blast
  from 1 VectorValued_init_validates[of "[basis_x, plane_child]"]
  have a: "VectorValued_init [basis_x, plane_child] = Inl (ValueError scalar_msg)" by blast
  from 2 VectorValued_init_validates[of "[basis_x, unit_child]"]
  have b: "VectorValued_init [basis_x, unit_child] = Inl (ValueError domain_msg)" by blast
  from 3 VectorValued_init_validates[of "[basis_x, basis_y]"]
  have c: "(\<forall>b\<in>set [basis_x, basis_y]. dim_codomain b = 1)
        \<and> (\<forall>b\<in>set [basis_x, basis_y]. \<forall>b'\<in>set [basis_x, basis_y].
              dim_domain b = dim_domain b' \<and> domain_range b = domain_range b')" by blast
  from a b c show ?thesis by (simp add: example_attributes)
qed



section \<open>Evaluation of a vector-valued basis\<close>

lemma collect_map_Inr:
  "(\<And>x. x \<in> set xs \<Longrightarrow> f x = Inr (g x)) \<Longrightarrow> collect (map f xs) = Inr (map g xs)"
  by (induction xs) auto

lemma nth_concat_offset:
  "j < length xss \<Longrightarrow> r < length (xss ! j) \<Longrightarrow>
     concat xss ! (sum_list (map length (take j xss)) + r) = xss ! j ! r"
proof (induction xss arbitrary: j)
  case Nil
  then show ?case by simp
next
  case (Cons xs xss)
  show ?case
  proof (cases j)
    case 0
    with Cons.prems show ?thesis by (simp add: nth_append)
  next
    case (Suc j')
    with Cons.prems have "j' < length xss" "r < length (xss ! j')" by simp_all
    from Cons.IH[OF this] show ?thesis using Suc by (simp add: nth_append)
  qed
qed

lemma last_axis_0_ok:
  "(\<And>row cell. row \<in> set ev \<Longrightarrow> cell \<in> set row \<Longrightarrow> cell \<noteq> []) \<Longrightarrow>
     last_axis_0 ev = Inr (map (map (\<lambda>cell. cell ! 0)) ev)"
  by (auto simp: last_axis_0_def list_ex_iff List.null_iff)

lemma set_band_zeros:
  fixes pre :: "('a::zero) list list list"
  assumes len: "length vals \<le> N" and i: "i < k"
    and rows: "\<And>vrow. vrow \<in> set vals \<Longrightarrow> length vrow = np"
  shows "set_band (pre @ replicate N (replicate np (replicate k 0))) (length pre) i vals
         = Inr (pre @ map (map (\<lambda>w. (replicate k 0)[i := w])) vals
                  @ replicate (N - length vals) (replicate np (replicate k 0)))"
proof -
  let ?z = "replicate np (replicate k (0::'a))"
  let ?m = "pre @ replicate N ?z"
  have lo: "min (length pre) (length ?m) = length pre" by simp
  have hi: "min (length pre + length vals) (length ?m) = length pre + length vals"
    using len by simp
  have band: "take (length vals) (drop (length pre) ?m) = replicate (length vals) ?z"
    using len by (simp add: min_def)
  have idx: "\<not> list_ex (list_ex (\<lambda>cell. length cell \<le> i)) (replicate (length vals) ?z)"
    using i by (auto simp: list_ex_iff)
  have bc: "broadcast_to (length vals) vals = Inr vals" by (simp add: broadcast_to_def)
  have row: "\<And>vrow. vrow \<in> set vals \<Longrightarrow>
      set_row i ?z vrow = Inr (map (\<lambda>w. (replicate k 0)[i := w]) vrow)"
  proof -
    fix vrow assume "vrow \<in> set vals"
    then have l: "length vrow = np" by (rule rows)
    have "map2 (\<lambda>cell w. cell[i := w]) (replicate np (replicate k (0::'a))) vrow
          = map (\<lambda>w. (replicate k 0)[i := w]) vrow"
      using l by (auto simp: list_eq_iff_nth_eq)
    then show "set_row i ?z vrow = Inr (map (\<lambda>w. (replicate k 0)[i := w]) vrow)"
      using l by (simp add: set_row_def broadcast_to_def)
  qed
  have z: "map2 (set_row i) (replicate (length vals) ?z) vals = map (set_row i ?z) vals"
    by (auto simp: list_eq_iff_nth_eq)
  have col: "collect (map2 (set_row i) (replicate (length vals) ?z) vals)
             = Inr (map (map (\<lambda>w. (replicate k 0)[i := w])) vals)"
    unfolding z by (rule collect_map_Inr) (rule row)
  have tk: "take (length pre) ?m = pre" by simp
  have dr: "drop (length pre + length vals) ?m = replicate (N - length vals) ?z"
    by simp
  show ?thesis
    unfolding set_band_def Let_def lo hi
    by (simp only: add_diff_cancel_left' band idx if_False bc sum.case col tk dr)
qed

lemma evaluate_loop_zeros:
  fixes pre :: "('a::zero) list list list"
  assumes "sum_list (map length evs) \<le> N" and "i + length evs \<le> k"
    and "\<And>ev row. ev \<in> set evs \<Longrightarrow> row \<in> set ev \<Longrightarrow> length row = np"
    and "\<And>ev row cell. ev \<in> set evs \<Longrightarrow> row \<in> set ev \<Longrightarrow> cell \<in> set row \<Longrightarrow> cell \<noteq> []"
  shows "evaluate_loop (pre @ replicate N (replicate np (replicate k 0))) (length pre) i evs
         = Inr (pre @ concat (map (\<lambda>(j, ev). band_rows k j ev) (enumerate i evs))
                  @ replicate (N - sum_list (map length evs)) (replicate np (replicate k 0)))"
  using assms
proof (induction evs arbitrary: pre N i)
  case Nil
  then show ?case by simp
next
  case (Cons ev evs)
  let ?vals = "map (map (\<lambda>cell. cell ! 0)) ev"
  let ?b = "map (map (\<lambda>w. (replicate k (0::'a))[i := w])) ?vals"
  have la: "last_axis_0 ev = Inr ?vals"
    by (rule last_axis_0_ok) (rule Cons.prems(4)[of ev], simp_all)
  have len: "length ?vals \<le> N" using Cons.prems(1) by simp
  have i: "i < k" using Cons.prems(2) by simp
  have rows: "\<And>vrow. vrow \<in> set ?vals \<Longrightarrow> length vrow = np"
    using Cons.prems(3)[of ev] by auto
  have sb: "set_band (pre @ replicate N (replicate np (replicate k 0))) (length pre) i ?vals
        = Inr ((pre @ ?b) @ replicate (N - length ev) (replicate np (replicate k 0)))"
    using set_band_zeros[OF len i rows, of pre] by simp
  have bb: "?b = band_rows k i ev" by (simp add: band_rows_def comp_def)
  have IH: "evaluate_loop ((pre @ ?b) @ replicate (N - length ev) (replicate np (replicate k 0)))
              (length (pre @ ?b)) (Suc i) evs
        = Inr ((pre @ ?b) @ concat (map (\<lambda>(j, ev). band_rows k j ev) (enumerate (Suc i) evs))
                  @ replicate (N - length ev - sum_list (map length evs)) (replicate np (replicate k 0)))"
  proof (rule Cons.IH)
    show "sum_list (map length evs) \<le> N - length ev" using Cons.prems(1) by simp
    show "Suc i + length evs \<le> k" using Cons.prems(2) by simp
    show "\<And>ev' row. ev' \<in> set evs \<Longrightarrow> row \<in> set ev' \<Longrightarrow> length row = np"
    proof -
      fix ev' row assume "ev' \<in> set evs" "row \<in> set ev'"
      then show "length row = np" using Cons.prems(3)[of ev' row] by simp
    qed
    show "\<And>ev' row cell. ev' \<in> set evs \<Longrightarrow> row \<in> set ev' \<Longrightarrow> cell \<in> set row \<Longrightarrow> cell \<noteq> []"
    proof -
      fix ev' row cell assume "ev' \<in> set evs" "row \<in> set ev'" "cell \<in> set row"
      then show "cell \<noteq> []" using Cons.prems(4)[of ev' row cell] by simp
    qed
  qed
  show ?case
    unfolding evaluate_loop.simps la sum.case sb
    using IH by (simp add: band_rows_def comp_def)
qed


lemma band_rows_nth:
  "r < length ev \<Longrightarrow> p < length (ev ! r) \<Longrightarrow> i < k \<Longrightarrow> c < k \<Longrightarrow>
     band_rows k i ev ! r ! p ! c = (if c = i then ev ! r ! p ! 0 else 0)"
  by (simp add: band_rows_def)

lemma bands_nth:
  assumes "i < length evs" "r < length (evs ! i)"
  shows "concat (map (\<lambda>(j, ev). band_rows k j ev) (enumerate n evs))
           ! (sum_list (map length (take i evs)) + r) = band_rows k (n + i) (evs ! i) ! r"
proof -
  let ?xss = "map (\<lambda>(j, ev). band_rows k j ev) (enumerate n evs)"
  have l: "map length ?xss = map length evs"
    by (auto simp: list_eq_iff_nth_eq nth_enumerate_eq band_rows_def)
  have x: "?xss ! i = band_rows k (n + i) (evs ! i)"
    using assms(1) by (simp add: nth_enumerate_eq)
  have "concat ?xss ! (sum_list (map length (take i ?xss)) + r) = ?xss ! i ! r"
    by (rule nth_concat_offset) (use assms x in \<open>simp_all add: band_rows_def\<close>)
  moreover have "map length (take i ?xss) = map length (take i evs)"
    using l by (metis take_map)
  ultimately show ?thesis using x by simp
qed

lemma vv_evaluate_closed:
  fixes self :: "('a::zero) vector_valued"
  assumes init: "VectorValued_init bl = Inr self"
    and shape: "\<forall>b\<in>set bl. length (evaluate b P) = n_basis b
        \<and> (\<forall>row\<in>set (evaluate b P). length row = length P \<and> (\<forall>cell\<in>set row. length cell = 1))"
  shows "vv_evaluate self P
     = Inr (concat (map (\<lambda>(j, ev). band_rows (length bl) j ev)
                      (enumerate 0 (map (\<lambda>b. evaluate b P) bl))))"
proof -
  from init have bl: "basis_list self = bl" and n: "vv_n_basis self = sum_list (map n_basis bl)"
    by (auto simp: VectorValued_init_def Basis_init_def split: if_splits list.splits)
  let ?evs = "map (\<lambda>b. evaluate b P) bl"
  have s: "sum_list (map length ?evs) = sum_list (map n_basis bl)"
    using shape by (simp add: comp_def cong: map_cong)
  have "evaluate_loop ([] @ replicate (sum_list (map n_basis bl)) (replicate (length P) (replicate (length bl) 0)))
          (length ([] :: 'a list list list)) 0 ?evs
      = Inr ([] @ concat (map (\<lambda>(j, ev). band_rows (length bl) j ev) (enumerate 0 ?evs))
              @ replicate (sum_list (map n_basis bl) - sum_list (map length ?evs))
                  (replicate (length P) (replicate (length bl) 0)))"
  proof (rule evaluate_loop_zeros)
    show "sum_list (map length ?evs) \<le> sum_list (map n_basis bl)" using s by simp
    show "0 + length ?evs \<le> length bl" by simp
    show "\<And>ev row. ev \<in> set ?evs \<Longrightarrow> row \<in> set ev \<Longrightarrow> length row = length P"
      using shape by auto
    show "\<And>ev row cell. ev \<in> set ?evs \<Longrightarrow> row \<in> set ev \<Longrightarrow> cell \<in> set row \<Longrightarrow> cell \<noteq> []"
      using shape by fastforce
  qed
  then have "evaluate_loop (replicate (sum_list (map n_basis bl)) (replicate (length P) (replicate (length bl) 0)))
          0 0 ?evs
      = Inr (concat (map (\<lambda>(j, ev). band_rows (length bl) j ev) (enumerate 0 ?evs)))"
    unfolding s by simp
  then show ?thesis
    by (simp add: vv_evaluate_def np_zeros3_def vv_dim_codomain_def bl n)
qed

text \<open>
  C1: for a vector-valued basis built from the scalar children \<open>B1..Bk\<close> and points
  \<open>P\<close>, where every child's evaluation has shape \<open>(n_basis, n_points, 1)\<close>, the
  evaluation returns an array of shape \<open>(n_basis, n_points, dim_codomain)\<close> in which
  the row band of child \<open>i\<close> (the bands follow each other in child order, band \<open>i\<close>
  of height \<open>Bi.n_basis\<close>) equals \<open>Bi.evaluate(P)\<close> in coordinate slot \<open>i\<close> and is
  zero in every other slot.
\<close>

theorem vv_evaluate_bands:
  fixes self :: "('a::zero) vector_valued"
  assumes init: "VectorValued_init bl = Inr self"
    and shape: "\<forall>b\<in>set bl. length (evaluate b P) = n_basis b
        \<and> (\<forall>row\<in>set (evaluate b P). length row = length P \<and> (\<forall>cell\<in>set row. length cell = 1))"
  shows "\<exists>M. vv_evaluate self P = Inr M
      \<and> length M = vv_n_basis self
      \<and> (\<forall>row\<in>set M. length row = length P \<and> (\<forall>cell\<in>set row. length cell = vv_dim_codomain self))
      \<and> (\<forall>i<length bl. \<forall>r<n_basis (bl ! i). \<forall>p<length P. \<forall>c<length bl.
            M ! (sum_list (map n_basis (take i bl)) + r) ! p ! c
              = (if c = i then evaluate (bl ! i) P ! r ! p ! 0 else 0))"
proof -
  from init have bl: "basis_list self = bl" and n: "vv_n_basis self = sum_list (map n_basis bl)"
    by (auto simp: VectorValued_init_def Basis_init_def split: if_splits list.splits)
  let ?evs = "map (\<lambda>b. evaluate b P) bl"
  let ?k = "length bl"
  let ?M = "concat (map (\<lambda>(j, ev). band_rows ?k j ev) (enumerate 0 ?evs))"
  have lens: "map length ?evs = map n_basis bl"
    using shape by (simp add: comp_def cong: map_cong)
  have ev: "vv_evaluate self P = Inr ?M" by (rule vv_evaluate_closed[OF init shape])
  have len: "length ?M = vv_n_basis self"
  proof -
    have "map length (map (\<lambda>(j, ev). band_rows ?k j ev) (enumerate 0 ?evs)) = map length ?evs"
      by (auto simp: list_eq_iff_nth_eq nth_enumerate_eq band_rows_def)
    then show ?thesis by (simp add: length_concat n lens del: map_map)
  qed
  have rows: "\<forall>row\<in>set ?M. length row = length P \<and> (\<forall>cell\<in>set row. length cell = vv_dim_codomain self)"
  proof
    fix row assume "row \<in> set ?M"
    then obtain j ev where jev: "(j, ev) \<in> set (enumerate 0 ?evs)" and r: "row \<in> set (band_rows ?k j ev)"
      by auto
    from jev have "ev \<in> set ?evs" by (auto simp: in_set_enumerate_eq)
    then obtain b where b: "b \<in> set bl" "ev = evaluate b P" by auto
    from r obtain row0 where row0: "row0 \<in> set ev" "row = map (\<lambda>cell. (replicate ?k 0)[j := cell ! 0]) row0"
      by (auto simp: band_rows_def)
    have "length row0 = length P" using shape b row0(1) by auto
    then show "length row = length P \<and> (\<forall>cell\<in>set row. length cell = vv_dim_codomain self)"
      using row0(2) by (auto simp: vv_dim_codomain_def bl)
  qed
  have idx: "\<forall>i<length bl. \<forall>r<n_basis (bl ! i). \<forall>p<length P. \<forall>c<length bl.
            ?M ! (sum_list (map n_basis (take i bl)) + r) ! p ! c
              = (if c = i then evaluate (bl ! i) P ! r ! p ! 0 else 0)"
  proof (intro allI impI)
    fix i r p c
    assume i: "i < length bl" and r: "r < n_basis (bl ! i)" and p: "p < length P" and c: "c < length bl"
    have bi: "bl ! i \<in> set bl" using i by simp
    have li: "length (?evs ! i) = n_basis (bl ! i)" using shape bi i by simp
    have evi: "?evs ! i = evaluate (bl ! i) P" using i by simp
    have off: "sum_list (map length (take i ?evs)) = sum_list (map n_basis (take i bl))"
      using lens by (metis take_map)
    have "?M ! (sum_list (map length (take i ?evs)) + r) = band_rows ?k (0 + i) (?evs ! i) ! r"
      by (rule bands_nth) (use i r li in simp_all)
    then have "?M ! (sum_list (map n_basis (take i bl)) + r) = band_rows ?k i (evaluate (bl ! i) P) ! r"
      unfolding off evi by simp
    moreover have "band_rows ?k i (evaluate (bl ! i) P) ! r ! p ! c
        = (if c = i then evaluate (bl ! i) P ! r ! p ! 0 else 0)"
    proof (rule band_rows_nth)
      show "r < length (evaluate (bl ! i) P)" using r li evi by simp
      then have "evaluate (bl ! i) P ! r \<in> set (evaluate (bl ! i) P)" by simp
      then show "p < length (evaluate (bl ! i) P ! r)" using shape bi p by auto
    qed (use i c in simp_all)
    ultimately show "?M ! (sum_list (map n_basis (take i bl)) + r) ! p ! c
              = (if c = i then evaluate (bl ! i) P ! r ! p ! 0 else 0)" by simp
  qed
  from ev len rows idx show ?thesis by blast
qed


lemma docstring_shapes:
  "\<forall>b\<in>set [basis_x, basis_y]. length (evaluate b [0, 1, 2]) = n_basis b
     \<and> (\<forall>row\<in>set (evaluate b [0, 1, 2]). length row = length [0, 1, 2 :: real]
          \<and> (\<forall>cell\<in>set row. length cell = 1))"
  by (simp add: basis_x_def basis_y_def)

theorem vv_evaluate_bands_witness:
  "\<exists>M. vv_evaluate docstring_basis [0, 1, 2] = Inr M
     \<and> length M = 5
     \<and> M ! 4 ! 2 ! 1 = 2 \<and> M ! 4 ! 2 ! 0 = 0
     \<and> M ! 2 ! 2 ! 0 = 4 \<and> M ! 2 ! 2 ! 1 = 0"
proof -
  from vv_evaluate_bands[OF docstring_basis_init docstring_shapes]
  obtain M where M: "vv_evaluate docstring_basis [0, 1, 2] = Inr M"
    "length M = vv_n_basis docstring_basis"
    and idx: "\<forall>i<length [basis_x, basis_y]. \<forall>r<n_basis ([basis_x, basis_y] ! i).
        \<forall>p<length [0, 1, 2 :: real]. \<forall>c<length [basis_x, basis_y].
          M ! (sum_list (map n_basis (take i [basis_x, basis_y])) + r) ! p ! c
            = (if c = i then evaluate ([basis_x, basis_y] ! i) [0, 1, 2] ! r ! p ! 0 else 0)"
    by blast
  have y: "n_basis basis_y = 2" "n_basis basis_x = 3" by (simp_all add: basis_x_def basis_y_def)
  from idx[rule_format, of 1 1 2 1] have a: "M ! 4 ! 2 ! 1 = 2"
    by (simp add: basis_x_def basis_y_def eval_nat_numeral)
  from idx[rule_format, of 1 1 2 0] have b: "M ! 4 ! 2 ! 0 = 0"
    by (simp add: basis_x_def basis_y_def eval_nat_numeral)
  from idx[rule_format, of 0 2 2 0] have c: "M ! 2 ! 2 ! 0 = 4"
    by (simp add: basis_x_def basis_y_def eval_nat_numeral)
  from idx[rule_format, of 0 2 2 1] have d: "M ! 2 ! 2 ! 1 = 0"
    by (simp add: basis_x_def basis_y_def eval_nat_numeral)
  from M a b c d show ?thesis by (simp add: docstring_basis_def)
qed

text \<open>The evaluation of the docstring of the class, computed by the model.\<close>

lemma docstring_evaluation:
  "vv_evaluate docstring_basis [0, 1, 2] =
     Inr [[[1, 0], [1, 0], [1, 0]],
          [[0, 0], [1, 0], [2, 0]],
          [[0, 0], [1, 0], [4, 0]],
          [[0, 1], [0, 1], [0, 1]],
          [[0, 0], [0, 1], [0, 2]]]"
  by (simp add: vv_evaluate_def docstring_basis_def basis_x_def basis_y_def np_zeros3_def
      vv_dim_codomain_def last_axis_0_def set_band_def set_row_def broadcast_to_def
      eval_nat_numeral)

section \<open>The Gram matrix of a vector-valued basis\<close>

lemma sum_take_le:
  "sum_list (map f (take i xs)) \<le> sum_list (map f xs)" for f :: "'b \<Rightarrow> nat"
  by (metis append_take_drop_id le_add1 map_append sum_list.append)

lemma sum_take_Suc:
  "i < length xs \<Longrightarrow> sum_list (map f (take (Suc i) xs)) = sum_list (map f (take i xs)) + f (xs ! i)"
  for f :: "'b \<Rightarrow> nat"
  by (simp add: take_Suc_conv_app_nth)

lemma sum_take_mono:
  "i \<le> j \<Longrightarrow> sum_list (map f (take i xs)) \<le> sum_list (map f (take j xs))" for f :: "'b \<Rightarrow> nat"
proof -
  assume "i \<le> j"
  then have "take i xs = take i (take j xs)" by (simp add: min_def)
  then show ?thesis using sum_take_le[of f i "take j xs"] by simp
qed

lemma block_diag_rows_length:
  "length (block_diag_rows As) = sum_list (map length As)"
  by (induction As) simp_all

lemma block_diag_rows_row:
  fixes As :: "('a::zero) list list list"
  assumes "i < length As" "r < length (As ! i)"
  shows "block_diag_rows As ! (sum_list (map length (take i As)) + r)
     = replicate (sum_list (map ncols (take i As))) 0 @ (As ! i ! r)
       @ replicate (sum_list (map ncols (drop (Suc i) As))) 0"
  using assms
proof (induction As arbitrary: i)
  case Nil
  then show ?case by simp
next
  case (Cons A As)
  show ?case
  proof (cases i)
    case 0
    with Cons.prems show ?thesis by (simp add: nth_append)
  next
    case (Suc i')
    with Cons.prems have p: "i' < length As" "r < length (As ! i')" by simp_all
    have "block_diag_rows (A # As) ! (sum_list (map length (take i (A # As))) + r)
        = map (\<lambda>row. replicate (ncols A) 0 @ row) (block_diag_rows As)
            ! (sum_list (map length (take i' As)) + r)"
      using Suc by (simp add: nth_append)
    also have "sum_list (map length (take i' As)) + r < length (block_diag_rows As)"
    proof -
      have "sum_list (map length (take (Suc i') As)) \<le> sum_list (map length As)"
        by (rule sum_take_le)
      then show ?thesis using p by (simp add: block_diag_rows_length sum_take_Suc)
    qed
    then have "map (\<lambda>row. replicate (ncols A) 0 @ row) (block_diag_rows As)
            ! (sum_list (map length (take i' As)) + r)
        = replicate (ncols A) 0 @ block_diag_rows As ! (sum_list (map length (take i' As)) + r)"
      by simp
    also have "\<dots> = replicate (ncols A) 0 @ replicate (sum_list (map ncols (take i' As))) 0 @ (As ! i' ! r)
       @ replicate (sum_list (map ncols (drop (Suc i') As))) 0"
      using Cons.IH[OF p] by simp
    finally show ?thesis using Suc by (simp add: replicate_add)
  qed
qed

lemma block_diag_rows_entry:
  fixes As :: "('a::zero) list list list"
  assumes i: "i < length As" and j: "j < length As" and r: "r < length (As ! i)"
    and c: "c < ncols (As ! j)" and rect: "\<forall>A\<in>set As. rectangular A"
  shows "block_diag_rows As ! (sum_list (map length (take i As)) + r)
           ! (sum_list (map ncols (take j As)) + c)
         = (if i = j then As ! i ! r ! c else 0)"
proof -
  let ?co = "\<lambda>n. sum_list (map ncols (take n As))"
  have row: "block_diag_rows As ! (sum_list (map length (take i As)) + r)
     = replicate (?co i) 0 @ (As ! i ! r) @ replicate (sum_list (map ncols (drop (Suc i) As))) 0"
    by (rule block_diag_rows_row[OF i r])
  have "As ! i \<in> set As" using i by simp
  then have "rectangular (As ! i)" using rect by blast
  then have lr: "length (As ! i ! r) = ncols (As ! i)"
    using r by (simp add: rectangular_def list_all_iff)
  have tot: "sum_list (map ncols As) = ?co (Suc i) + sum_list (map ncols (drop (Suc i) As))"
    by (metis append_take_drop_id map_append sum_list.append)
  consider "j < i" | "j = i" | "i < j" by linarith
  then show ?thesis
  proof cases
    case 1
    then have "?co (Suc j) \<le> ?co i" by (intro sum_take_mono) simp
    then have "?co j + c < ?co i" using c j by (simp add: sum_take_Suc)
    then show ?thesis using 1 row by (simp add: nth_append)
  next
    case 2
    then show ?thesis using row lr c by (simp add: nth_append)
  next
    case 3
    then have le: "?co (Suc i) \<le> ?co j" by (intro sum_take_mono) simp
    have "?co (Suc j) \<le> sum_list (map ncols As)" by (rule sum_take_le)
    then have lt: "?co j + c < ?co (Suc i) + sum_list (map ncols (drop (Suc i) As))"
      using c j tot by (simp add: sum_take_Suc)
    have si: "?co (Suc i) = ?co i + ncols (As ! i)" using i by (simp add: sum_take_Suc)
    have n1: "\<not> ?co j + c < ?co i" using le si by simp
    have n2: "\<not> ?co j + c - ?co i < ncols (As ! i)" using le si by simp
    have n3: "?co j + c - ?co i - ncols (As ! i) < sum_list (map ncols (drop (Suc i) As))"
      using le lt si by simp
    show ?thesis using 3 row lr n1 n2 n3 by (simp add: nth_append)
  qed
qed

lemma block_diag_rows_width:
  fixes As :: "('a::zero) list list list"
  assumes rect: "\<forall>A\<in>set As. rectangular A" and "row \<in> set (block_diag_rows As)"
  shows "length row = sum_list (map ncols As)"
  using assms
proof (induction As arbitrary: row)
  case Nil
  then show ?case by simp
next
  case (Cons A As)
  from Cons.prems(2) consider
      r0 where "r0 \<in> set A" "row = r0 @ replicate (sum_list (map ncols As)) 0"
    | r1 where "r1 \<in> set (block_diag_rows As)" "row = replicate (ncols A) 0 @ r1"
    by auto
  then show ?case
  proof cases
    case 1
    have "rectangular A" using Cons.prems(1) by simp
    then have "length r0 = ncols A" using 1(1) by (simp add: rectangular_def list_all_iff)
    then show ?thesis using 1(2) by simp
  next
    case 2
    have "length r1 = sum_list (map ncols As)"
      by (rule Cons.IH) (use Cons.prems(1) 2(1) in simp_all)
    then show ?thesis using 2(2) by simp
  qed
qed

text \<open>
  C3: the Gram matrix of a vector-valued basis is the block-diagonal assembly of the
  children's Gram matrices in child order: the block on the diagonal at child \<open>i\<close> is
  that child's Gram matrix and every entry of an off-diagonal block is zero.
\<close>

theorem vv_gram_matrix_block_diagonal:
  fixes self :: "('a::zero) vector_valued"
  assumes init: "VectorValued_init bl = Inr self"
    and rect: "\<forall>b\<in>set bl. rectangular (gram_matrix b)"
  shows "length (vv_gram_matrix self) = sum_list (map (\<lambda>b. length (gram_matrix b)) bl)
    \<and> (\<forall>row\<in>set (vv_gram_matrix self). length row = sum_list (map (\<lambda>b. ncols (gram_matrix b)) bl))
    \<and> (\<forall>i<length bl. \<forall>j<length bl. \<forall>r<length (gram_matrix (bl ! i)). \<forall>c<ncols (gram_matrix (bl ! j)).
          vv_gram_matrix self ! (sum_list (map (\<lambda>b. length (gram_matrix b)) (take i bl)) + r)
                              ! (sum_list (map (\<lambda>b. ncols (gram_matrix b)) (take j bl)) + c)
            = (if i = j then gram_matrix (bl ! i) ! r ! c else 0))"
proof -
  from init have bl: "basis_list self = bl" and ne: "bl \<noteq> []"
    by (auto simp: VectorValued_init_def Basis_init_def split: if_splits list.splits)
  let ?As = "map gram_matrix bl"
  have g: "vv_gram_matrix self = block_diag_rows ?As"
    using ne by (simp add: vv_gram_matrix_def block_diag_def bl)
  have rect': "\<forall>A\<in>set ?As. rectangular A" using rect by simp
  have 1: "length (vv_gram_matrix self) = sum_list (map (\<lambda>b. length (gram_matrix b)) bl)"
    by (simp add: g block_diag_rows_length comp_def)
  have 2: "\<forall>row\<in>set (vv_gram_matrix self). length row = sum_list (map (\<lambda>b. ncols (gram_matrix b)) bl)"
    using block_diag_rows_width[OF rect'] by (simp add: g comp_def)
  have 3: "\<forall>i<length bl. \<forall>j<length bl. \<forall>r<length (gram_matrix (bl ! i)). \<forall>c<ncols (gram_matrix (bl ! j)).
          vv_gram_matrix self ! (sum_list (map (\<lambda>b. length (gram_matrix b)) (take i bl)) + r)
                              ! (sum_list (map (\<lambda>b. ncols (gram_matrix b)) (take j bl)) + c)
            = (if i = j then gram_matrix (bl ! i) ! r ! c else 0)"
  proof (intro allI impI)
    fix i j r c
    assume a: "i < length bl" "j < length bl" "r < length (gram_matrix (bl ! i))"
      "c < ncols (gram_matrix (bl ! j))"
    have "block_diag_rows ?As ! (sum_list (map length (take i ?As)) + r)
           ! (sum_list (map ncols (take j ?As)) + c)
         = (if i = j then ?As ! i ! r ! c else 0)"
      by (rule block_diag_rows_entry) (use a rect' in simp_all)
    then show "vv_gram_matrix self ! (sum_list (map (\<lambda>b. length (gram_matrix b)) (take i bl)) + r)
                              ! (sum_list (map (\<lambda>b. ncols (gram_matrix b)) (take j bl)) + c)
            = (if i = j then gram_matrix (bl ! i) ! r ! c else 0)"
      using a by (simp add: g take_map comp_def)
  qed
  from 1 2 3 show ?thesis by blast
qed


lemma docstring_rectangular: "\<forall>b\<in>set [basis_x, basis_y]. rectangular (gram_matrix b)"
  by (simp add: basis_x_def basis_y_def rectangular_def ncols_def)

theorem vv_gram_matrix_block_diagonal_witness:
  "length (vv_gram_matrix docstring_basis) = 5
   \<and> vv_gram_matrix docstring_basis ! 0 ! 3 = 0
   \<and> vv_gram_matrix docstring_basis ! 3 ! 4 = 25 / 2"
proof -
  note t = vv_gram_matrix_block_diagonal[OF docstring_basis_init docstring_rectangular]
  from t have 1: "length (vv_gram_matrix docstring_basis) = 5"
    by (simp add: basis_x_def basis_y_def)
  from t have idx: "\<forall>i<length [basis_x, basis_y]. \<forall>j<length [basis_x, basis_y].
      \<forall>r<length (gram_matrix ([basis_x, basis_y] ! i)). \<forall>c<ncols (gram_matrix ([basis_x, basis_y] ! j)).
        vv_gram_matrix docstring_basis
            ! (sum_list (map (\<lambda>b. length (gram_matrix b)) (take i [basis_x, basis_y])) + r)
            ! (sum_list (map (\<lambda>b. ncols (gram_matrix b)) (take j [basis_x, basis_y])) + c)
          = (if i = j then gram_matrix ([basis_x, basis_y] ! i) ! r ! c else 0)"
    by blast
  from idx[rule_format, of 0 1 0 0] have 2: "vv_gram_matrix docstring_basis ! 0 ! 3 = 0"
    by (simp add: basis_x_def basis_y_def ncols_def eval_nat_numeral)
  from idx[rule_format, of 1 1 0 1] have 3: "vv_gram_matrix docstring_basis ! 3 ! 4 = 25 / 2"
    by (simp add: basis_x_def basis_y_def ncols_def eval_nat_numeral)
  from 1 2 3 show ?thesis by simp
qed

section \<open>Selecting a prefix of the coordinates\<close>













section \<open>The derivative of a vector-valued representation\<close>











section \<open>The parametric plot\<close>














section \<open>The depth transformer\<close>

lemma np_transpose_columns:
  assumes "vs \<noteq> []" and "\<forall>v\<in>set vs. length v = n"
  shows "np_transpose vs = Inr (map (\<lambda>s. map (\<lambda>w. w ! s) vs) [0..<n])"
proof -
  from assms(1) obtain v rest where vs: "vs = v # rest" by (cases vs) auto
  have "list_all (\<lambda>w. length w = length v) rest" "length v = n"
    using assms(2) by (simp_all add: vs list_all_iff)
  then show ?thesis by (simp add: np_transpose_def vs)
qed

text \<open>
  The transformer where it does what the docstring of \<open>transform\<close> says:
  \<open>transform\<close> on a transformer that was not fitted raises the not-fitted error;
  after a \<open>fit\<close> that fitted at least one distribution, where every distribution
  predicts one score per sample, \<open>transform\<close> returns an array with one row per
  sample and one column per fitted distribution, whose column \<open>j\<close> is the
  prediction of distribution \<open>j\<close>.
\<close>

theorem transform_after_fit:
  assumes helper: "classifier_fit_distributions X0 y (depth_methods self) = Inr (cs, ds)"
    and some: "ds \<noteq> []"
    and lens: "\<forall>d\<in>set ds. length (predict d X) = n"
  shows "transform (DDGTransformer_init depth_method methods
                      :: ('m, 'c, 'x, 'a) ddg_transformer) X = Inl NotFittedError
     \<and> (\<exists>fitted out.
           fit classifier_fit_distributions (self :: ('m, 'c, 'x, 'a) ddg_transformer) X0 y = Inr fitted
         \<and> transform fitted X = Inr out
         \<and> length out = n
         \<and> (\<forall>row\<in>set out. length row = length ds)
         \<and> (\<forall>s<n. \<forall>j<length ds. out ! s ! j = predict (ds ! j) X ! s))"
proof -
  let ?fitted = "self\<lparr>fitted_classes := Some cs, fitted_distributions := Some ds\<rparr>"
  let ?vs = "map (\<lambda>distribution. predict distribution X) ds"
  let ?out = "map (\<lambda>s. map (\<lambda>w. w ! s) ?vs) [0..<n]"
  have unfitted: "transform (DDGTransformer_init depth_method methods
                      :: ('m, 'c, 'x, 'a) ddg_transformer) X = Inl NotFittedError"
    by (simp add: transform_def check_is_fitted_def DDGTransformer_init_def)
  have f: "fit classifier_fit_distributions self X0 y = Inr ?fitted"
    by (simp add: fit_def helper)
  have "np_transpose ?vs = Inr ?out"
    by (rule np_transpose_columns) (use some lens in simp_all)
  then have t: "transform ?fitted X = Inr ?out"
    by (simp add: transform_def check_is_fitted_def)
  have 1: "length ?out = n" by simp
  have 2: "\<forall>row\<in>set ?out. length row = length ds" by auto
  have 3: "\<forall>s<n. \<forall>j<length ds. ?out ! s ! j = predict (ds ! j) X ! s" by simp
  from unfitted f t 1 2 3 show ?thesis by blast
qed

lemma example_fit_two:
  "example_fit example_X [0, 1]
     (depth_methods (DDGTransformer_init hd (Some [hd, last])
        :: (real list \<Rightarrow> real, nat, real list list, real) ddg_transformer))
   = Inr ([0, 1], [Distribution (map hd), Distribution (map last)])"
  by (simp add: example_fit_def DDGTransformer_init_def)

theorem transform_after_fit_witness:
  "transform (DDGTransformer_init hd None
              :: (real list \<Rightarrow> real, nat, real list list, real) ddg_transformer) example_X
     = Inl NotFittedError
   \<and> (\<exists>fitted.
        fit example_fit (DDGTransformer_init hd (Some [hd, last])) example_X [0, 1] = Inr fitted
      \<and> transform fitted example_X = Inr [[1, 3], [4, 6]])"
proof -
  have lens: "\<forall>d\<in>set [Distribution (map hd), Distribution (map last)].
      length (predict d example_X) = 2"
    by (simp add: example_X_def)
  from transform_after_fit[where classifier_fit_distributions = example_fit
      and depth_method = hd and methods = None, OF example_fit_two _ lens]
  obtain fitted out where
    u: "transform (DDGTransformer_init hd None
              :: (real list \<Rightarrow> real, nat, real list list, real) ddg_transformer) example_X
     = Inl NotFittedError"
    and f: "fit example_fit (DDGTransformer_init hd (Some [hd, last])) example_X [0, 1] = Inr fitted"
    and t: "transform fitted example_X = Inr out" and l: "length out = 2"
    and r: "\<forall>row\<in>set out. length row = length [Distribution (map hd), Distribution (map last :: real list list \<Rightarrow> real list)]"
    and e: "\<forall>s<2. \<forall>j<length [Distribution (map hd), Distribution (map last :: real list list \<Rightarrow> real list)].
          out ! s ! j = predict ([Distribution (map hd), Distribution (map last)] ! j) example_X ! s"
    by auto
  have "out = [[1, 3], [4, 6]]"
  proof -
    from l obtain r0 r1 where out: "out = [r0, r1]"
      by (cases out; cases "tl out"; cases "tl (tl out)") auto
    from r out have "length r0 = 2" "length r1 = 2" by simp_all
    then obtain a b c d where rr: "r0 = [a, b]" "r1 = [c, d]"
      by (cases r0; cases "tl r0"; cases "tl (tl r0)"; cases r1; cases "tl r1"; cases "tl (tl r1)") auto
    from e[rule_format, of 0 0] e[rule_format, of 0 1] e[rule_format, of 1 0] e[rule_format, of 1 1]
    show ?thesis by (simp add: out rr example_X_def)
  qed
  with u f t show ?thesis by blast
qed

text \<open>
  C5: after \<open>fit(X, y)\<close>, \<open>transform(X)\<close> is to return the column-wise stack of the
  fitted distributions' predictions, an array of shape
  \<open>(n_samples, number_of_fitted_distributions)\<close>; the docstring of \<open>transform\<close>
  gives the same shape, \<open>(n_samples, G)\<close>. The code does not do so for a transformer
  constructed with an empty list of depth methods, which the constructor accepts:
  fitted on two samples it has no distribution, and \<open>transform\<close> returns the empty
  array, which has no rows, instead of the array of two rows without columns.
\<close>

theorem transform_no_distributions:
  "fit example_fit (DDGTransformer_init hd (Some [])) example_X [0, 1]
     = Inr \<lparr>depth_methods = [], fitted_classes = Some [0, 1], fitted_distributions = Some []\<rparr>
   \<and> transform \<lparr>depth_methods = [] :: (real list \<Rightarrow> real) list, fitted_classes = Some [0, 1 :: nat],
                 fitted_distributions = Some ([] :: (real list list, real) distribution list)\<rparr> example_X
       = Inr []
   \<and> length example_X = 2
   \<and> transform \<lparr>depth_methods = [] :: (real list \<Rightarrow> real) list, fitted_classes = Some [0, 1 :: nat],
                 fitted_distributions = Some ([] :: (real list list, real) distribution list)\<rparr> example_X
       \<noteq> Inr (replicate (length example_X) [])"
  by (simp add: fit_def example_fit_def DDGTransformer_init_def transform_def check_is_fitted_def
      np_transpose_def example_X_def)

end
